theory Spec2Isabelle
  imports Complex_Main "HOL-Library.Sublist"
begin

section \<open>Error detectors of MISP\_SQL (error\_detector.py)\<close>

text \<open>
  The four detector classes of \<^verbatim>\<open>MISP_SQL/error_detector.py\<close> share one shape:
  a short-circuit on \<^verbatim>\<open>start_pos >= len(tag_seq)\<close>, one call of
  \<^verbatim>\<open>semantic_unit_segment\<close>, and a loop over \<^verbatim>\<open>zip(semantic_units, pointers)\<close>
  that skips pointers below \<^verbatim>\<open>start_pos\<close>, tests a variant-specific condition,
  appends to \<^verbatim>\<open>err_su_pointer_pairs\<close> and returns early when
  \<^verbatim>\<open>bool_return_first\<close> is set.

  Python exceptions are values of type \<open>error\<close>; a method returns \<open>error + 'a\<close>
  with \<open>Inl\<close> for a raised exception. Python ints are \<open>int\<close>. A Python float is
  the real number it denotes, so comparisons of floats are comparisons of reals; the
  float arithmetic of \<^verbatim>\<open>np.std\<close> is not reproduced, the function is a parameter.
\<close>

subsection \<open>Data\<close>

datatype error =
    TypeError
  | IndexError
  | KeyError string
  | ValueError
  | NotImplementedError
  | Raised string

text \<open>
  The confidence component \<^verbatim>\<open>semantic_unit[-2]\<close>: a scalar probability, or a
  Python list of probabilities sampled by repeated stochastic passes.
\<close>

datatype conf = is_Scalar: Scalar (scalar: real) | Samples (samples: "real list")

text \<open>
  A semantic unit is a Python tuple \<^verbatim>\<open>(tag_name, ..., prob, dec_idx)\<close>. The
  detectors read \<^verbatim>\<open>semantic_unit[0]\<close> (field \<open>tag_name\<close>) and
  \<^verbatim>\<open>semantic_unit[-2]\<close> (field \<open>prob\<close>); every other component is carried
  along untouched in \<open>payload\<close>.
\<close>

record 'p semantic_unit =
  tag_name :: string
  payload :: 'p
  prob :: conf

type_synonym 'p pairs = "('p semantic_unit \<times> int) list"

text \<open>
  \<^verbatim>\<open>semantic_unit_segment\<close> is imported from \<^verbatim>\<open>.utils\<close>. It is a parameter
  of every detector here: a function from the decision sequence to
  \<^verbatim>\<open>(semantic_units, pointers)\<close> that may itself raise.
\<close>

type_synonym ('t, 'p) segmenter =
  "'t list \<Rightarrow> error + ('p semantic_unit list \<times> int list)"

subsection \<open>Python subscripting\<close>

text \<open>\<^verbatim>\<open>xs[i]\<close> on a Python list: a negative index counts from the end.\<close>

definition list_getitem :: "'a list \<Rightarrow> int \<Rightarrow> error + 'a" where
  "list_getitem xs i =
     (if 0 \<le> i \<and> i < int (length xs) then Inr (xs ! nat i)
      else if i < 0 \<and> - int (length xs) \<le> i then Inr (xs ! nat (int (length xs) + i))
      else Inl IndexError)"

text \<open>
  \<^verbatim>\<open>eval_tf[pointer]\<close>, where \<^verbatim>\<open>eval_tf\<close> defaults to \<^verbatim>\<open>None\<close>:
  subscripting \<^verbatim>\<open>None\<close> raises TypeError.
\<close>

definition eval_tf_getitem :: "bool list option \<Rightarrow> int \<Rightarrow> error + bool" where
  "eval_tf_getitem eval_tf pointer =
     (case eval_tf of None \<Rightarrow> Inl TypeError | Some tf \<Rightarrow> list_getitem tf pointer)"

subsection \<open>ErrorDetectorSim\<close>

fun sim_loop ::
  "'p pairs \<Rightarrow> int \<Rightarrow> bool \<Rightarrow> bool list option \<Rightarrow> 'p pairs \<Rightarrow> error + 'p pairs" where
  "sim_loop [] start_pos bool_return_first eval_tf err_su_pointer_pairs =
     Inr err_su_pointer_pairs"
| "sim_loop ((su, pointer) # rest) start_pos bool_return_first eval_tf err_su_pointer_pairs =
     (if pointer < start_pos
      then sim_loop rest start_pos bool_return_first eval_tf err_su_pointer_pairs
      else case eval_tf_getitem eval_tf pointer of
             Inl e \<Rightarrow> Inl e
           | Inr bool_correct \<Rightarrow>
               if \<not> bool_correct
               then (let appended = err_su_pointer_pairs @ [(su, pointer)]
                     in if bool_return_first then Inr appended
                        else sim_loop rest start_pos bool_return_first eval_tf appended)
               else sim_loop rest start_pos bool_return_first eval_tf err_su_pointer_pairs)"

definition sim_detection ::
  "('t, 'p) segmenter \<Rightarrow> 't list \<Rightarrow> int \<Rightarrow> bool \<Rightarrow> bool list option \<Rightarrow> error + 'p pairs" where
  "sim_detection semantic_unit_segment tag_seq start_pos bool_return_first eval_tf =
     (if start_pos \<ge> int (length tag_seq) then Inr []
      else case semantic_unit_segment tag_seq of
             Inl e \<Rightarrow> Inl e
           | Inr (semantic_units, pointers) \<Rightarrow>
               sim_loop (zip semantic_units pointers) start_pos bool_return_first eval_tf [])"

subsection \<open>ErrorDetectorProbability\<close>

text \<open>
  \<^verbatim>\<open>prob < self.prob_threshold\<close>: a float compares; a list against a float raises
  TypeError.
\<close>

definition prob_lt :: "conf \<Rightarrow> real \<Rightarrow> error + bool" where
  "prob_lt c prob_threshold =
     (case c of Scalar p \<Rightarrow> Inr (p < prob_threshold) | Samples _ \<Rightarrow> Inl TypeError)"

fun prob_loop ::
  "real \<Rightarrow> 'p pairs \<Rightarrow> int \<Rightarrow> bool \<Rightarrow> 'p pairs \<Rightarrow> error + 'p pairs" where
  "prob_loop prob_threshold [] start_pos bool_return_first err_su_pointer_pairs =
     Inr err_su_pointer_pairs"
| "prob_loop prob_threshold ((su, pointer) # rest) start_pos bool_return_first
       err_su_pointer_pairs =
     (if pointer < start_pos
      then prob_loop prob_threshold rest start_pos bool_return_first err_su_pointer_pairs
      else case prob_lt (prob su) prob_threshold of
             Inl e \<Rightarrow> Inl e
           | Inr below \<Rightarrow>
               if below
               then (let appended = err_su_pointer_pairs @ [(su, pointer)]
                     in if bool_return_first then Inr appended
                        else prob_loop prob_threshold rest start_pos bool_return_first appended)
               else prob_loop prob_threshold rest start_pos bool_return_first
                      err_su_pointer_pairs)"

definition prob_detection ::
  "real \<Rightarrow> ('t, 'p) segmenter \<Rightarrow> 't list \<Rightarrow> int \<Rightarrow> bool \<Rightarrow> error + 'p pairs" where
  "prob_detection prob_threshold semantic_unit_segment tag_seq start_pos bool_return_first =
     (if start_pos \<ge> int (length tag_seq) then Inr []
      else case semantic_unit_segment tag_seq of
             Inl e \<Rightarrow> Inl e
           | Inr (semantic_units, pointers) \<Rightarrow>
               prob_loop prob_threshold (zip semantic_units pointers) start_pos
                 bool_return_first [])"

subsection \<open>ErrorDetectorBayesDropout\<close>

text \<open>
  \<^verbatim>\<open>np\<close> is imported from \<^verbatim>\<open>.utils\<close>, and \<^verbatim>\<open>np.std\<close> computes in
  64-bit floating point. It is a parameter of this detector: a function from the
  confidence component to the float it returns, read as a real number, with \<open>None\<close> for
  \<^verbatim>\<open>nan\<close>. Every comparison with \<^verbatim>\<open>nan\<close> is false.
\<close>

type_synonym std_fun = "conf \<Rightarrow> real option"

definition std_gt :: "real option \<Rightarrow> real \<Rightarrow> bool" where
  "std_gt stddev stddev_threshold =
     (case stddev of None \<Rightarrow> False | Some s \<Rightarrow> s > stddev_threshold)"



fun bayes_loop ::
  "std_fun \<Rightarrow> real \<Rightarrow> 'p pairs \<Rightarrow> int \<Rightarrow> bool \<Rightarrow> 'p pairs \<Rightarrow> error + 'p pairs" where
  "bayes_loop np_std stddev_threshold [] start_pos bool_return_first err_su_pointer_pairs =
     Inr err_su_pointer_pairs"
| "bayes_loop np_std stddev_threshold ((su, pointer) # rest) start_pos bool_return_first
       err_su_pointer_pairs =
     (if pointer < start_pos
      then bayes_loop np_std stddev_threshold rest start_pos bool_return_first
             err_su_pointer_pairs
      else let stddev = np_std (prob su)
           in if std_gt stddev stddev_threshold
              then (let appended = err_su_pointer_pairs @ [(su, pointer)]
                    in if bool_return_first then Inr appended
                       else bayes_loop np_std stddev_threshold rest start_pos
                              bool_return_first appended)
              else bayes_loop np_std stddev_threshold rest start_pos bool_return_first
                     err_su_pointer_pairs)"

definition bayes_detection ::
  "std_fun \<Rightarrow> real \<Rightarrow> ('t, 'p) segmenter \<Rightarrow> 't list \<Rightarrow> int \<Rightarrow> bool \<Rightarrow> error + 'p pairs" where
  "bayes_detection np_std stddev_threshold semantic_unit_segment tag_seq start_pos
       bool_return_first =
     (if start_pos \<ge> int (length tag_seq) then Inr []
      else case semantic_unit_segment tag_seq of
             Inl e \<Rightarrow> Inl e
           | Inr (semantic_units, pointers) \<Rightarrow>
               bayes_loop np_std stddev_threshold (zip semantic_units pointers) start_pos
                 bool_return_first [])"

subsection \<open>ErrorDetectorFNN\<close>

text \<open>
  The detector object: \<^verbatim>\<open>self.indexer\<close> (a dict from tag names to column
  indices), \<^verbatim>\<open>self.model\<close> (the classifier, from the feature row to its scalar
  output \<^verbatim>\<open>self.model(torch.Tensor(x)).item()\<close>) and \<^verbatim>\<open>self.input_size\<close>.
\<close>

record fnn_detector =
  indexer :: "string \<rightharpoonup> int"
  model :: "real list \<Rightarrow> real"
  input_size :: nat

text \<open>\<^verbatim>\<open>__init__\<close>: \<^verbatim>\<open>self.input_size = len(self.indexer) + 1\<close>.\<close>

definition fnn_init :: "(string \<rightharpoonup> int) \<Rightarrow> (real list \<Rightarrow> real) \<Rightarrow> fnn_detector" where
  "fnn_init get_indexer get_model =
     \<lparr>indexer = get_indexer, model = get_model, input_size = card (dom get_indexer) + 1\<rparr>"

text \<open>\<^verbatim>\<open>self.indexer[tag_name]\<close>: a missing key raises KeyError.\<close>

definition dict_getitem :: "(string \<rightharpoonup> int) \<Rightarrow> string \<Rightarrow> error + int" where
  "dict_getitem d k = (case d k of None \<Rightarrow> Inl (KeyError k) | Some v \<Rightarrow> Inr v)"

text \<open>
  \<^verbatim>\<open>x[0, i] = v\<close> on the single row of a \<^verbatim>\<open>(1, n)\<close> array: a negative index
  counts from the end, an index outside \<^verbatim>\<open>-n .. n-1\<close> raises IndexError.
\<close>

definition row_setitem :: "real list \<Rightarrow> int \<Rightarrow> real \<Rightarrow> error + real list" where
  "row_setitem x i v =
     (if 0 \<le> i \<and> i < int (length x) then Inr (x[nat i := v])
      else if i < 0 \<and> - int (length x) \<le> i then Inr (x[nat (int (length x) + i) := v])
      else Inl IndexError)"

text \<open>
  Storing \<^verbatim>\<open>prob\<close> into one array slot: a float is stored, a list raises
  ValueError (setting an array element with a sequence).
\<close>

definition row_setitem_conf :: "real list \<Rightarrow> int \<Rightarrow> conf \<Rightarrow> error + real list" where
  "row_setitem_conf x i c =
     (case c of Scalar p \<Rightarrow> row_setitem x i p | Samples _ \<Rightarrow> Inl ValueError)"

text \<open>
  Lines 134 to 150 of the loop body, "making the input for this semantic unit":
  \<^verbatim>\<open>x = np.zeros((1, self.input_size))\<close>, \<^verbatim>\<open>col_idx = self.indexer[tag_name]\<close>,
  \<^verbatim>\<open>x[0, -1] = prob\<close>, \<^verbatim>\<open>x[0, col_idx] = 1\<close>, in this order.
\<close>

definition fnn_input :: "fnn_detector \<Rightarrow> 'p semantic_unit \<Rightarrow> error + real list" where
  "fnn_input self su =
     (let x = replicate (input_size self) (0::real)
      in case dict_getitem (indexer self) (tag_name su) of
           Inl e \<Rightarrow> Inl e
         | Inr col_idx \<Rightarrow>
             (case row_setitem_conf x (- 1) (prob su) of
                Inl e \<Rightarrow> Inl e
              | Inr x1 \<Rightarrow> row_setitem x1 col_idx 1))"

fun fnn_loop ::
  "fnn_detector \<Rightarrow> 'p pairs \<Rightarrow> int \<Rightarrow> bool \<Rightarrow> 'p pairs \<Rightarrow> error + 'p pairs" where
  "fnn_loop self [] start_pos bool_return_first err_su_pointer_pairs =
     Inr err_su_pointer_pairs"
| "fnn_loop self ((su, pointer) # rest) start_pos bool_return_first err_su_pointer_pairs =
     (if pointer < start_pos
      then fnn_loop self rest start_pos bool_return_first err_su_pointer_pairs
      else case fnn_input self su of
             Inl e \<Rightarrow> Inl e
           | Inr x \<Rightarrow>
               (let y = model self x
                in if y < 0.5
                   then (let appended = err_su_pointer_pairs @ [(su, pointer)]
                         in if bool_return_first then Inr appended
                            else fnn_loop self rest start_pos bool_return_first appended)
                   else fnn_loop self rest start_pos bool_return_first
                          err_su_pointer_pairs))"

definition fnn_detection ::
  "fnn_detector \<Rightarrow> ('t, 'p) segmenter \<Rightarrow> 't list \<Rightarrow> int \<Rightarrow> bool \<Rightarrow> error + 'p pairs" where
  "fnn_detection self semantic_unit_segment tag_seq start_pos bool_return_first =
     (if start_pos \<ge> int (length tag_seq) then Inr []
      else case semantic_unit_segment tag_seq of
             Inl e \<Rightarrow> Inl e
           | Inr (semantic_units, pointers) \<Rightarrow>
               fnn_loop self (zip semantic_units pointers) start_pos bool_return_first [])"

subsection \<open>The detector variants behind one method\<close>

text \<open>
  \<^verbatim>\<open>detector.detection(tag_seq, start_pos, bool_return_first, eval_tf=...)\<close>
  dispatches on the class of the detector. Only \<^verbatim>\<open>ErrorDetectorSim\<close> names the
  keyword \<^verbatim>\<open>eval_tf\<close>; the other classes swallow it in \<^verbatim>\<open>**kwargs\<close>. The
  base class raises NotImplementedError. A dropout detector is its threshold together
  with the \<^verbatim>\<open>np.std\<close> of the module it calls.
\<close>

datatype detector =
    ErrorDetector
  | ErrorDetectorSim
  | ErrorDetectorProbability real
  | ErrorDetectorBayesDropout std_fun real
  | ErrorDetectorFNN fnn_detector

fun detection ::
  "detector \<Rightarrow> ('t, 'p) segmenter \<Rightarrow> 't list \<Rightarrow> int \<Rightarrow> bool \<Rightarrow> bool list option
     \<Rightarrow> error + 'p pairs" where
  "detection ErrorDetector seg tag_seq start_pos bool_return_first eval_tf =
     Inl NotImplementedError"
| "detection ErrorDetectorSim seg tag_seq start_pos bool_return_first eval_tf =
     sim_detection seg tag_seq start_pos bool_return_first eval_tf"
| "detection (ErrorDetectorProbability threshold) seg tag_seq start_pos bool_return_first
       eval_tf =
     prob_detection threshold seg tag_seq start_pos bool_return_first"
| "detection (ErrorDetectorBayesDropout np_std threshold) seg tag_seq start_pos
       bool_return_first eval_tf =
     bayes_detection np_std threshold seg tag_seq start_pos bool_return_first"
| "detection (ErrorDetectorFNN self) seg tag_seq start_pos bool_return_first eval_tf =
     fnn_detection self seg tag_seq start_pos bool_return_first"

text \<open>The four classes that implement \<^verbatim>\<open>detection\<close>.\<close>

definition concrete :: "detector \<Rightarrow> bool" where
  "concrete d = (d \<noteq> ErrorDetector)"

subsection \<open>The loop the four variants share\<close>

text \<open>
  The condition each variant tests on an examined unit: \<open>Inr True\<close> when the unit is
  judged erroneous, \<open>Inl\<close> when evaluating the condition raises.
\<close>

fun flags ::
  "detector \<Rightarrow> bool list option \<Rightarrow> 'p semantic_unit \<Rightarrow> int \<Rightarrow> error + bool" where
  "flags ErrorDetector eval_tf su pointer = Inl NotImplementedError"
| "flags ErrorDetectorSim eval_tf su pointer =
     (case eval_tf_getitem eval_tf pointer of
        Inl e \<Rightarrow> Inl e
      | Inr bool_correct \<Rightarrow> Inr (\<not> bool_correct))"
| "flags (ErrorDetectorProbability threshold) eval_tf su pointer =
     prob_lt (prob su) threshold"
| "flags (ErrorDetectorBayesDropout np_std threshold) eval_tf su pointer =
     Inr (std_gt (np_std (prob su)) threshold)"
| "flags (ErrorDetectorFNN self) eval_tf su pointer =
     (case fnn_input self su of
        Inl e \<Rightarrow> Inl e
      | Inr x \<Rightarrow> Inr (model self x < 0.5))"

fun detect_loop ::
  "('p semantic_unit \<Rightarrow> int \<Rightarrow> error + bool) \<Rightarrow> 'p pairs \<Rightarrow> int \<Rightarrow> bool \<Rightarrow> 'p pairs
     \<Rightarrow> error + 'p pairs" where
  "detect_loop test [] start_pos bool_return_first acc = Inr acc"
| "detect_loop test ((su, pointer) # rest) start_pos bool_return_first acc =
     (if pointer < start_pos then detect_loop test rest start_pos bool_return_first acc
      else case test su pointer of
             Inl e \<Rightarrow> Inl e
           | Inr erroneous \<Rightarrow>
               if erroneous
               then (if bool_return_first then Inr (acc @ [(su, pointer)])
                     else detect_loop test rest start_pos bool_return_first
                            (acc @ [(su, pointer)]))
               else detect_loop test rest start_pos bool_return_first acc)"

text \<open>
  What the loop collects when it runs to the end: the pairs, in the order of the zipped
  segmentation, whose pointer is not below \<open>start_pos\<close> and whose test is true.
\<close>

definition flagged ::
  "('p semantic_unit \<Rightarrow> int \<Rightarrow> error + bool) \<Rightarrow> int \<Rightarrow> 'p pairs \<Rightarrow> 'p pairs" where
  "flagged test start_pos xs =
     filter (\<lambda>(su, pointer). start_pos \<le> pointer \<and> test su pointer = Inr True) xs"

subsection \<open>The method as a transformer of the objects it can reach\<close>

text \<open>
  The objects a call of \<^verbatim>\<open>detection\<close> can reach: the caller's list \<^verbatim>\<open>tag_seq\<close>,
  the caller's \<^verbatim>\<open>eval_tf\<close>, the attributes of \<^verbatim>\<open>self\<close>, and the list object
  that the method itself creates, appends to and returns. A call may leave that last
  object behind in any state; the next call finds it there.
\<close>

record ('t, 'p) store =
  tag_seq_obj :: "'t list"
  eval_tf_obj :: "bool list option"
  self_obj :: detector
  err_su_pointer_pairs_obj :: "'p pairs"

text \<open>
  The loop of the four classes with its reads and writes on these objects. It reads
  \<^verbatim>\<open>self\<close> and \<^verbatim>\<open>eval_tf\<close> in the test of the class; its only write is
  \<^verbatim>\<open>err_su_pointer_pairs.append((semantic_unit, pointer))\<close>. The array
  \<^verbatim>\<open>x\<close> of the learned detector is created afresh for each unit inside
  \<open>fnn_input\<close> and never leaves the iteration.
\<close>

fun loop_st ::
  "'p pairs \<Rightarrow> int \<Rightarrow> bool \<Rightarrow> ('t, 'p) store \<Rightarrow> (error + 'p pairs) \<times> ('t, 'p) store" where
  "loop_st [] start_pos bool_return_first s = (Inr (err_su_pointer_pairs_obj s), s)"
| "loop_st ((su, pointer) # rest) start_pos bool_return_first s =
     (if pointer < start_pos then loop_st rest start_pos bool_return_first s
      else case flags (self_obj s) (eval_tf_obj s) su pointer of
             Inl e \<Rightarrow> (Inl e, s)
           | Inr erroneous \<Rightarrow>
               if erroneous
               then (let s' = s\<lparr>err_su_pointer_pairs_obj :=
                                   err_su_pointer_pairs_obj s @ [(su, pointer)]\<rparr>
                     in if bool_return_first then (Inr (err_su_pointer_pairs_obj s'), s')
                        else loop_st rest start_pos bool_return_first s')
               else loop_st rest start_pos bool_return_first s)"

text \<open>
  The method: the guard reads \<^verbatim>\<open>len(tag_seq)\<close>, the segmenter reads
  \<^verbatim>\<open>tag_seq\<close>, and \<^verbatim>\<open>err_su_pointer_pairs = []\<close> creates the list before the
  loop runs.
\<close>

definition detection_st ::
  "('t, 'p) segmenter \<Rightarrow> int \<Rightarrow> bool \<Rightarrow> ('t, 'p) store
     \<Rightarrow> (error + 'p pairs) \<times> ('t, 'p) store" where
  "detection_st semantic_unit_segment start_pos bool_return_first s =
     (if self_obj s = ErrorDetector then (Inl NotImplementedError, s)
      else if start_pos \<ge> int (length (tag_seq_obj s)) then (Inr [], s)
      else case semantic_unit_segment (tag_seq_obj s) of
             Inl e \<Rightarrow> (Inl e, s)
           | Inr (semantic_units, pointers) \<Rightarrow>
               loop_st (zip semantic_units pointers) start_pos bool_return_first
                 (s\<lparr>err_su_pointer_pairs_obj := []\<rparr>))"

subsection \<open>Inputs of the worked examples\<close>

text \<open>
  A unit without payload, and a segmenter that makes every record of the sequence a
  semantic unit whose pointer is its index.
\<close>

definition mk_unit :: "string \<Rightarrow> conf \<Rightarrow> unit semantic_unit" where
  "mk_unit t c = \<lparr>tag_name = t, payload = (), prob = c\<rparr>"

definition segment_each :: "(unit semantic_unit, unit) segmenter" where
  "segment_each tag_seq = Inr (tag_seq, map int [0..<length tag_seq])"

text \<open>A segmenter that raises on every sequence but the empty one.\<close>

definition segment_raises :: "(unit semantic_unit, unit) segmenter" where
  "segment_raises tag_seq = (if tag_seq = [] then Inr ([], []) else Inl (Raised ''segment''))"


text \<open>An indexer of two tag names, as the model-info object would hand it out.\<close>

definition example_indexer :: "string \<rightharpoonup> int" where
  "example_indexer = map_of [(''SELECT_COL'', 0), (''WHERE_COL'', 1)]"

section \<open>The four loops are the shared loop\<close>

lemma sim_loop_eq:
  "sim_loop xs s b ev acc = detect_loop (flags ErrorDetectorSim ev) xs s b acc"
  by (induction xs arbitrary: acc) (auto split: sum.splits simp: Let_def)

lemma prob_loop_eq:
  "prob_loop thr xs s b acc = detect_loop (flags (ErrorDetectorProbability thr) ev) xs s b acc"
  by (induction xs arbitrary: acc) (auto split: sum.splits simp: Let_def)

lemma bayes_loop_eq:
  "bayes_loop np_std thr xs s b acc =
     detect_loop (flags (ErrorDetectorBayesDropout np_std thr) ev) xs s b acc"
  by (induction xs arbitrary: acc) (auto split: sum.splits simp: Let_def)

lemma fnn_loop_eq:
  "fnn_loop self xs s b acc = detect_loop (flags (ErrorDetectorFNN self) ev) xs s b acc"
  by (induction xs arbitrary: acc) (auto split: sum.splits simp: Let_def)

lemma detection_unfold:
  "concrete d \<Longrightarrow>
   detection d seg ts s b ev =
     (if s \<ge> int (length ts) then Inr []
      else case seg ts of
             Inl e \<Rightarrow> Inl e
           | Inr (us, ps) \<Rightarrow> detect_loop (flags d ev) (zip us ps) s b [])"
  by (cases d)
     (simp_all add: concrete_def sim_detection_def prob_detection_def bayes_detection_def
        fnn_detection_def sim_loop_eq prob_loop_eq [where ev = ev]
        bayes_loop_eq [where ev = ev] fnn_loop_eq [where ev = ev]
        split: sum.splits prod.splits)

section \<open>Facts about the shared loop\<close>

lemma flagged_Nil: "flagged t s [] = []"
  by (simp add: flagged_def)

lemma flagged_Cons:
  "flagged t s ((su, p) # xs) =
     (if s \<le> p \<and> t su p = Inr True then (su, p) # flagged t s xs else flagged t s xs)"
  by (simp add: flagged_def)

lemma detect_loop_step_skip:
  "\<not> (s \<le> p \<and> t su p = Inr True) \<Longrightarrow> detect_loop t ((su, p) # xs) s b acc = Inr r \<Longrightarrow>
   detect_loop t xs s b acc = Inr r"
  by (auto split: sum.splits if_splits)

text \<open>Run to the end, the loop returns the accumulator followed by the flagged pairs.\<close>

lemma detect_loop_full_Inr:
  "detect_loop t xs s False acc = Inr r \<Longrightarrow> r = acc @ flagged t s xs"
proof (induction xs arbitrary: acc)
  case Nil
  then show ?case by (simp add: flagged_Nil)
next
  case (Cons a xs)
  obtain su p where a: "a = (su, p)" by (cases a)
  show ?case
  proof (cases "s \<le> p \<and> t su p = Inr True")
    case True
    with Cons.prems a have "detect_loop t xs s False (acc @ [(su, p)]) = Inr r" by simp
    from Cons.IH [OF this] True a show ?thesis by (simp add: flagged_Cons)
  next
    case False
    with Cons.prems a have "detect_loop t xs s False acc = Inr r"
      by (simp add: detect_loop_step_skip)
    from Cons.IH [OF this] False a show ?thesis by (simp add: flagged_Cons)
  qed
qed

text \<open>A full run that returns has evaluated the test of every examined unit.\<close>

lemma detect_loop_full_examined:
  "detect_loop t xs s False acc = Inr r \<Longrightarrow> (su, p) \<in> set xs \<Longrightarrow> s \<le> p \<Longrightarrow>
   \<exists>b. t su p = Inr b"
  by (induction xs arbitrary: acc) (auto split: sum.splits if_splits)

text \<open>When no examined test raises, the full run returns.\<close>

lemma detect_loop_full_total:
  "(\<forall>(su, p) \<in> set xs. s \<le> p \<longrightarrow> (\<exists>b. t su p = Inr b)) \<Longrightarrow>
   detect_loop t xs s False acc = Inr (acc @ flagged t s xs)"
  by (induction xs arbitrary: acc)
     (auto simp: flagged_def split: sum.splits if_splits)

text \<open>Where the full run returns, the early-return run returns its first new pair.\<close>

lemma detect_loop_first:
  "detect_loop t xs s False acc = Inr r \<Longrightarrow>
   detect_loop t xs s True acc = Inr (acc @ take 1 (flagged t s xs))"
proof (induction xs arbitrary: acc)
  case Nil
  then show ?case by (simp add: flagged_Nil)
next
  case (Cons a xs)
  obtain su p where a: "a = (su, p)" by (cases a)
  show ?case
  proof (cases "s \<le> p \<and> t su p = Inr True")
    case True
    with a show ?thesis by (simp add: flagged_Cons)
  next
    case False
    with Cons.prems a have "detect_loop t xs s False acc = Inr r"
      by (simp add: detect_loop_step_skip)
    from Cons.IH [OF this] False a Cons.prems show ?thesis
      by (auto simp: flagged_Cons split: sum.splits if_splits)
  qed
qed

text \<open>
  Whatever the mode, a returned list is the accumulator followed by a subsequence of the
  zipped segmentation, all of whose pairs were examined and tested true.
\<close>

lemma detect_loop_Inr:
  "detect_loop t xs s b acc = Inr r \<Longrightarrow>
   \<exists>r'. r = acc @ r' \<and> subseq r' xs \<and> (\<forall>(su, p) \<in> set r'. s \<le> p \<and> t su p = Inr True)"
proof (induction xs arbitrary: acc)
  case Nil
  then show ?case by simp
next
  case (Cons a xs)
  obtain su p where a: "a = (su, p)" by (cases a)
  show ?case
  proof (cases "s \<le> p \<and> t su p = Inr True")
    case hit: True
    show ?thesis
    proof (cases b)
      case True
      with hit Cons.prems a have "r = acc @ [(su, p)]" by simp
      with hit a show ?thesis by simp
    next
      case False
      with hit Cons.prems a have "detect_loop t xs s b (acc @ [(su, p)]) = Inr r" by simp
      from Cons.IH [OF this] obtain r' where
        "r = (acc @ [(su, p)]) @ r'" "subseq r' xs"
        "\<forall>(su, p) \<in> set r'. s \<le> p \<and> t su p = Inr True" by blast
      with hit a show ?thesis by (intro exI [of _ "(su, p) # r'"]) simp
    qed
  next
    case False
    with Cons.prems a have "detect_loop t xs s b acc = Inr r"
      by (simp add: detect_loop_step_skip)
    from Cons.IH [OF this] show ?thesis by (auto intro: subseq_Cons')
  qed
qed

lemma sorted_subseq:
  "subseq xs ys \<Longrightarrow> sorted (ys :: int list) \<Longrightarrow> sorted xs"
  by (metis subseq_conv_nths sorted_nths)

lemma sorted_zip_snd:
  "sorted (ps :: int list) \<Longrightarrow> sorted (map snd (zip us ps))"
  by (simp add: map_snd_zip_take)

lemma flagged_out_of_range:
  "\<forall>p \<in> set ps. p < n \<Longrightarrow> n \<le> s \<Longrightarrow> flagged t s (zip us ps) = []"
  by (auto simp: flagged_def filter_empty_conv dest!: set_zip_rightD)

lemma flagged_cong:
  "(\<And>su p. (su, p) \<in> set xs \<Longrightarrow> s \<le> p \<Longrightarrow> (t su p = Inr True) = P su p) \<Longrightarrow>
   flagged t s xs = filter (\<lambda>(su, p). s \<le> p \<and> P su p) xs"
  unfolding flagged_def by (rule filter_cong) auto

text \<open>
  Detection in closed form: when the segmenter returns and no examined test raises, and
  \<open>start_pos\<close> lies inside the sequence or all pointers do.
\<close>

lemma detection_full:
  assumes c: "concrete d" and seg: "seg ts = Inr (us, ps)"
    and ok: "\<forall>(su, p) \<in> set (zip us ps). s \<le> p \<longrightarrow> (\<exists>b. flags d ev su p = Inr b)"
    and inside: "s < int (length ts) \<or> (\<forall>p \<in> set ps. p < int (length ts))"
  shows "detection d seg ts s False ev = Inr (flagged (flags d ev) s (zip us ps))"
    and "detection d seg ts s True ev = Inr (take 1 (flagged (flags d ev) s (zip us ps)))"
proof -
  have full: "detect_loop (flags d ev) (zip us ps) s False [] =
      Inr (flagged (flags d ev) s (zip us ps))"
    using detect_loop_full_total [OF ok, of "[]"] by simp
  show "detection d seg ts s False ev = Inr (flagged (flags d ev) s (zip us ps))"
  proof (cases "int (length ts) \<le> s")
    case True
    with inside have "\<forall>p \<in> set ps. p < int (length ts)" by auto
    from flagged_out_of_range [OF this True, of "flags d ev" us] c True show ?thesis
      by (simp add: detection_unfold)
  next
    case False
    with c seg full show ?thesis by (simp add: detection_unfold)
  qed
  show "detection d seg ts s True ev = Inr (take 1 (flagged (flags d ev) s (zip us ps)))"
  proof (cases "int (length ts) \<le> s")
    case True
    with inside have "\<forall>p \<in> set ps. p < int (length ts)" by auto
    from flagged_out_of_range [OF this True, of "flags d ev" us] c True show ?thesis
      by (simp add: detection_unfold)
  next
    case False
    with c seg detect_loop_first [OF full] show ?thesis by (simp add: detection_unfold)
  qed
qed

lemma prob_lt_Scalar: "is_Scalar c \<Longrightarrow> prob_lt c thr = Inr (scalar c < thr)"
  by (cases c) (simp_all add: prob_lt_def)

lemma flags_prob:
  "(flags (ErrorDetectorProbability thr) ev su p = Inr True) =
     (is_Scalar (prob su) \<and> scalar (prob su) < thr)"
  by (simp add: prob_lt_def split: conf.splits)

lemma prob_loop_zero:
  "\<forall>(su, pointer) \<in> set xs. start_pos \<le> pointer \<longrightarrow> is_Scalar (prob su) \<and> 0 \<le> scalar (prob su) \<Longrightarrow>
   prob_loop 0 xs start_pos bool_return_first acc = Inr acc"
  by (induction xs arbitrary: acc) (auto simp: prob_lt_Scalar)

lemma detection_Inr_flags:
  assumes res: "detection d seg ts s b ev = Inr res" and mem: "(su, p) \<in> set res"
  shows "s \<le> p \<and> flags d ev su p = Inr True"
proof -
  from res have c: "concrete d" by (cases d) (simp_all add: concrete_def)
  from res mem have inside: "\<not> int (length ts) \<le> s"
    by (auto simp: detection_unfold [OF c])
  with res obtain us ps where
    "detect_loop (flags d ev) (zip us ps) s b [] = Inr res"
    by (auto simp: detection_unfold [OF c] split: sum.splits)
  from detect_loop_Inr [OF this] mem show ?thesis by auto
qed





lemma flags_sim:
  "(flags ErrorDetectorSim (Some tf) su p = Inr True) = (list_getitem tf p = Inr False)"
  by (auto simp: eval_tf_getitem_def split: sum.splits)

lemma detect_loop_raise:
  "\<forall>(su', p') \<in> set pre. s \<le> p' \<longrightarrow> (\<exists>f. t su' p' = Inr f \<and> (b \<longrightarrow> \<not> f)) \<Longrightarrow>
   s \<le> p \<Longrightarrow> t su p = Inl e \<Longrightarrow>
   detect_loop t (pre @ (su, p) # post) s b acc = Inl e"
  by (induction pre arbitrary: acc) auto

lemma flags_fnn:
  "(flags (ErrorDetectorFNN self) ev su p = Inr True) =
     (\<exists>x. fnn_input self su = Inr x \<and> model self x < 0.5)"
  by (auto split: sum.splits)

lemma card_example_indexer: "card (dom example_indexer) = 2"
  by (simp add: example_indexer_def dom_map_of_conv_image_fst)

lemma fnn_input_init:
  assumes "idx (tag_name su) = Some col_idx" and "prob su = Scalar q"
    and "0 \<le> col_idx" and "col_idx < int (card (dom idx))"
  shows "fnn_input (fnn_init idx mdl) su =
     Inr ((replicate (card (dom idx) + 1) 0)[card (dom idx) := q, nat col_idx := 1])"
  using assms
  by (simp add: fnn_input_def fnn_init_def dict_getitem_def row_setitem_conf_def
      row_setitem_def Let_def del: replicate_Suc)

lemma nonzero_slots:
  assumes "c < n"
  shows "{i. i < Suc n \<and> (replicate (Suc n) (0::real))[n := q, c := 1] ! i \<noteq> 0} =
     (if q = 0 then {c} else {c, n})"
  using assms by (auto simp: nth_list_update simp del: replicate_Suc)

lemma fnn_input_unknown:
  "indexer self (tag_name su) = None \<Longrightarrow> fnn_input self su = Inl (KeyError (tag_name su))"
  by (simp add: fnn_input_def dict_getitem_def)

lemma detect_loop_first_raises:
  "detect_loop t xs s True acc = Inl e \<Longrightarrow> detect_loop t xs s False acc = Inl e"
  by (induction xs arbitrary: acc) (auto split: sum.splits if_splits)

lemma detect_loop_first_short:
  "detect_loop t xs s True acc = Inr r \<Longrightarrow> length r \<le> Suc (length acc)"
  by (induction xs arbitrary: acc) (auto split: sum.splits if_splits)

section \<open>The store transformer and the method\<close>

lemma loop_st_frame:
  "tag_seq_obj (snd (loop_st xs sp b s)) = tag_seq_obj s \<and>
   eval_tf_obj (snd (loop_st xs sp b s)) = eval_tf_obj s \<and>
   self_obj (snd (loop_st xs sp b s)) = self_obj s"
  by (induction xs arbitrary: s) (auto simp: Let_def split: sum.splits)

lemma loop_st_result:
  "fst (loop_st xs sp b s) =
     detect_loop (flags (self_obj s) (eval_tf_obj s)) xs sp b (err_su_pointer_pairs_obj s)"
  by (induction xs arbitrary: s) (auto simp: Let_def split: sum.splits)

lemma detection_st_frame:
  "tag_seq_obj (snd (detection_st seg sp b s)) = tag_seq_obj s \<and>
   eval_tf_obj (snd (detection_st seg sp b s)) = eval_tf_obj s \<and>
   self_obj (snd (detection_st seg sp b s)) = self_obj s"
  by (simp add: detection_st_def loop_st_frame split: sum.splits prod.splits)

lemma detection_st_result:
  "fst (detection_st seg sp b s) =
     detection (self_obj s) seg (tag_seq_obj s) sp b (eval_tf_obj s)"
proof (cases "self_obj s = ErrorDetector")
  case True
  then show ?thesis by (simp add: detection_st_def)
next
  case False
  then have c: "concrete (self_obj s)" by (simp add: concrete_def)
  from False show ?thesis
    by (simp add: detection_st_def loop_st_result detection_unfold [OF c]
        split: sum.splits prod.splits)
qed

section \<open>Properties of detection\<close>

subsection \<open>Pointers of the returned pairs\<close>

text \<open>
  C1. For every detector variant, every sequence and every \<open>start_pos\<close>: each returned
  pair has a pointer not below \<open>start_pos\<close>; the returned pairs are a subsequence of the
  zipped segmentation (the order segmentation produced is kept), so where the pointers of
  the segmentation are non-decreasing, the returned pointers are non-decreasing.
\<close>

theorem pointers_ordered:
  "detection d seg tag_seq start_pos bool_return_first eval_tf = Inr res \<Longrightarrow>
   (\<forall>(su, pointer) \<in> set res. start_pos \<le> pointer) \<and>
   (\<forall>us ps. seg tag_seq = Inr (us, ps) \<longrightarrow>
      subseq res (zip us ps) \<and> (sorted ps \<longrightarrow> sorted (map snd res)))"
proof -
  assume res: "detection d seg tag_seq start_pos bool_return_first eval_tf = Inr res"
  then have c: "concrete d" by (cases d) (simp_all add: concrete_def)
  show ?thesis
  proof (cases "int (length tag_seq) \<le> start_pos")
    case True
    with c res have "res = []" by (simp add: detection_unfold)
    then show ?thesis by simp
  next
    case False
    with c res obtain us ps where seg: "seg tag_seq = Inr (us, ps)"
      by (auto simp: detection_unfold split: sum.splits)
    with c res False have
      "detect_loop (flags d eval_tf) (zip us ps) start_pos bool_return_first [] = Inr res"
      by (simp add: detection_unfold)
    from detect_loop_Inr [OF this] have
      sub: "subseq res (zip us ps)" and
      ge: "\<forall>(su, p) \<in> set res. start_pos \<le> p" by auto
    have "sorted (map snd res)" if "sorted ps"
    proof -
      from sub have "subseq (map snd res) (map snd (zip us ps))" by (rule subseq_map)
      with that show ?thesis by (blast intro: sorted_subseq sorted_zip_snd)
    qed
    with sub ge seg show ?thesis by simp
  qed
qed

theorem pointers_ordered_witness:
  "detection (ErrorDetectorProbability 0.5) segment_each
     [mk_unit ''SELECT_COL'' (Scalar 0.2), mk_unit ''WHERE_COL'' (Scalar 0.4),
      mk_unit ''WHERE_OP'' (Scalar 0.3)] 1 False None =
     Inr [(mk_unit ''WHERE_COL'' (Scalar 0.4), 1), (mk_unit ''WHERE_OP'' (Scalar 0.3), 2)] \<and>
   (1::int) \<le> 1 \<and> (1::int) \<le> 2 \<and> sorted [0, 1, 2 :: int] \<and>
   sorted (map snd
     [(mk_unit ''WHERE_COL'' (Scalar 0.4), 1 :: int), (mk_unit ''WHERE_OP'' (Scalar 0.3), 2)])"
proof -
  have h: "detection (ErrorDetectorProbability 0.5) segment_each
     [mk_unit ''SELECT_COL'' (Scalar 0.2), mk_unit ''WHERE_COL'' (Scalar 0.4),
      mk_unit ''WHERE_OP'' (Scalar 0.3)] 1 False None =
     Inr [(mk_unit ''WHERE_COL'' (Scalar 0.4), 1), (mk_unit ''WHERE_OP'' (Scalar 0.3), 2)]"
    by (simp add: prob_detection_def segment_each_def prob_lt_def mk_unit_def)
  from pointers_ordered [OF h] h show ?thesis by simp
qed

subsection \<open>The short-circuit\<close>

text \<open>
  C6. For every concrete detector variant and every sequence: when
  \<open>start_pos \<ge> len(tag_seq)\<close>, detection returns the empty list whatever the segmenter
  would do, also a segmenter that raises, so segmentation is not performed. On the
  empty sequence detection returns the empty list for every \<open>start_pos \<ge> 0\<close>, and for
  every \<open>start_pos\<close> when the segmenter yields no pointer for the empty sequence.
\<close>

theorem short_circuit:
  "concrete d \<Longrightarrow>
   (int (length tag_seq) \<le> start_pos \<longrightarrow>
      detection d seg tag_seq start_pos bool_return_first eval_tf = Inr []) \<and>
   (0 \<le> start_pos \<longrightarrow> detection d seg [] start_pos bool_return_first eval_tf = Inr []) \<and>
   (seg [] = Inr (us, []) \<longrightarrow> detection d seg [] start_pos bool_return_first eval_tf = Inr [])"
  by (simp add: detection_unfold)

theorem short_circuit_witness:
  "concrete ErrorDetectorSim \<and>
   int (length [mk_unit ''SELECT_COL'' (Scalar 0.2)]) \<le> 1 \<and>
   segment_raises [mk_unit ''SELECT_COL'' (Scalar 0.2)] = Inl (Raised ''segment'') \<and>
   detection ErrorDetectorSim segment_raises [mk_unit ''SELECT_COL'' (Scalar 0.2)] 1 False None =
     Inr [] \<and>
   (0::int) \<le> 0 \<and> detection ErrorDetectorSim segment_raises [] 0 False None = Inr [] \<and>
   segment_raises [] = Inr ([], []) \<and>
   detection ErrorDetectorSim segment_raises [] (- 1) False None = Inr []"
  using
    short_circuit [where d = ErrorDetectorSim and seg = segment_raises and start_pos = 1
      and tag_seq = "[mk_unit ''SELECT_COL'' (Scalar 0.2)]" and bool_return_first = False
      and eval_tf = None and us = "[]"]
    short_circuit [where d = ErrorDetectorSim and seg = segment_raises and start_pos = 0
      and tag_seq = "[]" and bool_return_first = False and eval_tf = None and us = "[]"]
    short_circuit [where d = ErrorDetectorSim and seg = segment_raises and start_pos = "- 1"
      and tag_seq = "[]" and bool_return_first = False and eval_tf = None and us = "[]"]
  by (simp add: concrete_def segment_raises_def)

subsection \<open>Returning the first error only\<close>

text \<open>
  C7. For every detector variant and every input on which detection with
  \<open>bool_return_first = False\<close> returns a list: detection with
  \<open>bool_return_first = True\<close> returns the prefix of length at most 1 of that list,
  which is empty exactly when the full list is empty. Whatever detection with
  \<open>bool_return_first = True\<close> returns has at most one pair, and where it raises,
  detection with \<open>bool_return_first = False\<close> raises the same exception.
\<close>

theorem first_only_prefix:
  "(detection d seg tag_seq start_pos False eval_tf = Inr full \<longrightarrow>
      detection d seg tag_seq start_pos True eval_tf = Inr (take 1 full) \<and>
      (take 1 full = [] \<longleftrightarrow> full = [])) \<and>
   (detection d seg tag_seq start_pos True eval_tf = Inr first \<longrightarrow> length first \<le> 1) \<and>
   (detection d seg tag_seq start_pos True eval_tf = Inl e \<longrightarrow>
      detection d seg tag_seq start_pos False eval_tf = Inl e)"
proof -
  have prefix: "detection d seg tag_seq start_pos True eval_tf = Inr (take 1 full) \<and>
      (take 1 full = [] \<longleftrightarrow> full = [])"
    if full: "detection d seg tag_seq start_pos False eval_tf = Inr full"
  proof -
  from full have c: "concrete d" by (cases d) (simp_all add: concrete_def)
  have "detection d seg tag_seq start_pos True eval_tf = Inr (take 1 full)"
  proof (cases "int (length tag_seq) \<le> start_pos")
    case True
    with c full show ?thesis by (simp add: detection_unfold)
  next
    case False
    with c full obtain us ps where seg: "seg tag_seq = Inr (us, ps)"
      by (auto simp: detection_unfold split: sum.splits)
    with c full False have
      l: "detect_loop (flags d eval_tf) (zip us ps) start_pos False [] = Inr full"
      by (simp add: detection_unfold)
    from detect_loop_full_Inr [OF l] detect_loop_first [OF l] c seg False
    show ?thesis by (simp add: detection_unfold)
  qed
  then show ?thesis by (cases full) simp_all
  qed
  have short: "length first \<le> 1"
    if first: "detection d seg tag_seq start_pos True eval_tf = Inr first"
  proof -
  from first have c: "concrete d" by (cases d) (simp_all add: concrete_def)
  show ?thesis
  proof (cases "int (length tag_seq) \<le> start_pos")
    case True
    with c first show ?thesis by (simp add: detection_unfold)
  next
    case False
    with c first obtain us ps where
      "detect_loop (flags d eval_tf) (zip us ps) start_pos True [] = Inr first"
      by (auto simp: detection_unfold split: sum.splits)
    from detect_loop_first_short [OF this] show ?thesis by simp
  qed
  qed
  have raises: "detection d seg tag_seq start_pos False eval_tf = Inl e"
    if raised: "detection d seg tag_seq start_pos True eval_tf = Inl e"
  proof (cases "concrete d")
    case False
    with raised show ?thesis by (simp add: concrete_def)
  next
    case c: True
    from raised c have inside: "\<not> int (length tag_seq) \<le> start_pos"
      by (auto simp: detection_unfold)
    show ?thesis
    proof (cases "seg tag_seq")
      case (Inl e')
      with raised c inside show ?thesis by (simp add: detection_unfold)
    next
      case (Inr r)
      obtain us ps where r: "r = (us, ps)" by (cases r)
      with Inr raised c inside have
        "detect_loop (flags d eval_tf) (zip us ps) start_pos True [] = Inl e"
        by (simp add: detection_unfold)
      from detect_loop_first_raises [OF this] Inr r c inside show ?thesis
        by (simp add: detection_unfold)
    qed
  qed
  from prefix short raises show ?thesis by blast
qed

theorem first_only_prefix_witness:
  "detection (ErrorDetectorProbability 0.5) segment_each
     [mk_unit ''SELECT_COL'' (Scalar 0.9), mk_unit ''WHERE_COL'' (Scalar 0.4),
      mk_unit ''WHERE_OP'' (Scalar 0.3)] 0 False None =
     Inr [(mk_unit ''WHERE_COL'' (Scalar 0.4), 1), (mk_unit ''WHERE_OP'' (Scalar 0.3), 2)] \<and>
   detection (ErrorDetectorProbability 0.5) segment_each
     [mk_unit ''SELECT_COL'' (Scalar 0.9), mk_unit ''WHERE_COL'' (Scalar 0.4),
      mk_unit ''WHERE_OP'' (Scalar 0.3)] 0 True None =
     Inr [(mk_unit ''WHERE_COL'' (Scalar 0.4), 1)] \<and>
   length [(mk_unit ''WHERE_COL'' (Scalar 0.4), 1 :: int)] \<le> 1 \<and>
   detection ErrorDetectorSim segment_each [mk_unit ''SELECT_COL'' (Scalar 0.9)] 0 True None =
     Inl TypeError \<and>
   detection ErrorDetectorSim segment_each [mk_unit ''SELECT_COL'' (Scalar 0.9)] 0 False None =
     Inl TypeError"
proof -
  let ?ts = "[mk_unit ''SELECT_COL'' (Scalar 0.9), mk_unit ''WHERE_COL'' (Scalar 0.4),
              mk_unit ''WHERE_OP'' (Scalar 0.3)]"
  let ?full = "[(mk_unit ''WHERE_COL'' (Scalar 0.4), 1 :: int),
                (mk_unit ''WHERE_OP'' (Scalar 0.3), 2)]"
  have h: "detection (ErrorDetectorProbability 0.5) segment_each ?ts 0 False None = Inr ?full"
    by (simp add: prob_detection_def segment_each_def prob_lt_def mk_unit_def)
  have r: "detection ErrorDetectorSim segment_each [mk_unit ''SELECT_COL'' (Scalar 0.9)]
      0 True None = Inl TypeError"
    by (simp add: sim_detection_def segment_each_def eval_tf_getitem_def)
  from first_only_prefix [where d = "ErrorDetectorProbability 0.5" and seg = segment_each
      and tag_seq = ?ts and start_pos = 0 and eval_tf = None and full = ?full
      and first = "take 1 ?full"] h
  have p: "detection (ErrorDetectorProbability 0.5) segment_each ?ts 0 True None =
      Inr (take 1 ?full) \<and> length (take 1 ?full) \<le> 1"
    by blast
  from first_only_prefix [where d = ErrorDetectorSim and seg = segment_each
      and tag_seq = "[mk_unit ''SELECT_COL'' (Scalar 0.9)]" and start_pos = 0
      and eval_tf = None and e = TypeError] r
  have q: "detection ErrorDetectorSim segment_each [mk_unit ''SELECT_COL'' (Scalar 0.9)]
      0 False None = Inl TypeError"
    by blast
  from h p q r show ?thesis by simp
qed

subsection \<open>The simulated detector without ground truth\<close>

text \<open>
  C10. For the simulated detector: when \<open>start_pos \<ge> len(tag_seq)\<close> detection returns
  the empty list whatever \<open>eval_tf\<close> is, also when it is omitted (None). After a
  segmentation, with \<open>eval_tf\<close> omitted the subscript \<open>eval_tf[pointer]\<close> is reached, and
  raises, exactly when \<open>start_pos < len(tag_seq)\<close> and some segmented unit has a pointer
  not below \<open>start_pos\<close>; when no unit has such a pointer the result is the empty list
  whatever \<open>eval_tf\<close> is.
\<close>

theorem sim_eval_tf_untouched:
  "(int (length tag_seq) \<le> start_pos \<longrightarrow>
      sim_detection seg tag_seq start_pos bool_return_first None = Inr [] \<and>
      sim_detection seg tag_seq start_pos bool_return_first eval_tf = Inr []) \<and>
   (seg tag_seq = Inr (us, ps) \<longrightarrow>
      sim_detection seg tag_seq start_pos bool_return_first None =
        (if start_pos < int (length tag_seq) \<and>
            (\<exists>(su, pointer) \<in> set (zip us ps). start_pos \<le> pointer)
         then Inl TypeError else Inr [])) \<and>
   (seg tag_seq = Inr (us, ps) \<and> (\<forall>(su, pointer) \<in> set (zip us ps). pointer < start_pos) \<longrightarrow>
      sim_detection seg tag_seq start_pos bool_return_first eval_tf = Inr [])"
proof -
  have none: "sim_loop xs start_pos bool_return_first None acc =
      (if \<exists>(su, pointer) \<in> set xs. start_pos \<le> pointer then Inl TypeError else Inr acc)"
    for xs :: "'b pairs" and acc
    by (induction xs arbitrary: acc) (auto simp: eval_tf_getitem_def)
  have skip: "sim_loop xs start_pos bool_return_first eval_tf acc = Inr acc"
    if "\<forall>(su, pointer) \<in> set xs. pointer < start_pos" for xs :: "'b pairs" and acc
    using that by (induction xs arbitrary: acc) auto
  show ?thesis by (auto simp: sim_detection_def none skip)
qed

theorem sim_eval_tf_untouched_witness:
  "int (length [mk_unit ''SELECT_COL'' (Scalar 0.2)]) \<le> 1 \<and>
   sim_detection segment_each [mk_unit ''SELECT_COL'' (Scalar 0.2)] 1 False None = Inr [] \<and>
   segment_each [mk_unit ''SELECT_COL'' (Scalar 0.2)] =
     Inr ([mk_unit ''SELECT_COL'' (Scalar 0.2)], [0]) \<and>
   sim_detection segment_each [mk_unit ''SELECT_COL'' (Scalar 0.2)] 0 False None =
     Inl TypeError"
  using
    sim_eval_tf_untouched [where seg = segment_each and start_pos = 1
      and tag_seq = "[mk_unit ''SELECT_COL'' (Scalar 0.2)]" and bool_return_first = False
      and eval_tf = None and us = "[mk_unit ''SELECT_COL'' (Scalar 0.2)]" and ps = "[0]"]
    sim_eval_tf_untouched [where seg = segment_each and start_pos = 0
      and tag_seq = "[mk_unit ''SELECT_COL'' (Scalar 0.2)]" and bool_return_first = False
      and eval_tf = None and us = "[mk_unit ''SELECT_COL'' (Scalar 0.2)]" and ps = "[0]"]
  by (simp add: segment_each_def)

subsection \<open>The probability threshold\<close>

text \<open>
  C2. For the probability-threshold detector, on units whose confidence is a scalar:
  run to the end, detection returns exactly the units with pointer not below
  \<open>start_pos\<close> whose probability is strictly below \<open>prob_threshold\<close>, in segmentation
  order; with \<open>bool_return_first\<close> it returns the first of them alone. With threshold 0
  no unit of probability \<open>\<ge> 0\<close> is returned. With units of probabilities 0.9, 0.4, 0.6
  and threshold 0.5 exactly the unit of probability 0.4 is returned.
\<close>

theorem probability_threshold:
  "(seg tag_seq = Inr (us, ps) \<and>
    (\<forall>(su, pointer) \<in> set (zip us ps). start_pos \<le> pointer \<longrightarrow> is_Scalar (prob su)) \<and>
    (start_pos < int (length tag_seq) \<or> (\<forall>pointer \<in> set ps. pointer < int (length tag_seq))) \<longrightarrow>
      prob_detection prob_threshold seg tag_seq start_pos False =
        Inr (filter (\<lambda>(su, pointer). start_pos \<le> pointer \<and>
                      is_Scalar (prob su) \<and> scalar (prob su) < prob_threshold) (zip us ps)) \<and>
      prob_detection prob_threshold seg tag_seq start_pos True =
        Inr (take 1 (filter (\<lambda>(su, pointer). start_pos \<le> pointer \<and>
                      is_Scalar (prob su) \<and> scalar (prob su) < prob_threshold) (zip us ps)))) \<and>
   (seg tag_seq = Inr (us, ps) \<and>
    (\<forall>(su, pointer) \<in> set (zip us ps). start_pos \<le> pointer \<longrightarrow>
        is_Scalar (prob su) \<and> 0 \<le> scalar (prob su)) \<longrightarrow>
      prob_detection 0 seg tag_seq start_pos bool_return_first = Inr []) \<and>
   (seg tag_seq = Inr ([ua, ub, uc], [0, 1, 2]) \<and> tag_seq \<noteq> [] \<and>
    prob ua = Scalar 0.9 \<and> prob ub = Scalar 0.4 \<and> prob uc = Scalar 0.6 \<longrightarrow>
      prob_detection 0.5 seg tag_seq 0 bool_return_first = Inr [(ub, 1)])"
proof (intro conjI impI)
  let ?d = "ErrorDetectorProbability prob_threshold"
  let ?F = "filter (\<lambda>(su, pointer). start_pos \<le> pointer \<and>
              is_Scalar (prob su) \<and> scalar (prob su) < prob_threshold) (zip us ps)"
  assume h: "seg tag_seq = Inr (us, ps) \<and>
    (\<forall>(su, pointer) \<in> set (zip us ps). start_pos \<le> pointer \<longrightarrow> is_Scalar (prob su)) \<and>
    (start_pos < int (length tag_seq) \<or> (\<forall>pointer \<in> set ps. pointer < int (length tag_seq)))"
  then have ok: "\<forall>(su, p) \<in> set (zip us ps). start_pos \<le> p \<longrightarrow>
      (\<exists>b. flags ?d None su p = Inr b)"
    by (auto simp: prob_lt_Scalar)
  have F: "flagged (flags ?d None) start_pos (zip us ps) = ?F"
    by (rule flagged_cong) (simp only: flags_prob)
  from h detection_full [of ?d seg tag_seq us ps start_pos None, OF _ _ ok]
  show "prob_detection prob_threshold seg tag_seq start_pos False = Inr ?F"
    and "prob_detection prob_threshold seg tag_seq start_pos True = Inr (take 1 ?F)"
    by (simp_all add: concrete_def F)
next
  assume "seg tag_seq = Inr (us, ps) \<and>
    (\<forall>(su, pointer) \<in> set (zip us ps). start_pos \<le> pointer \<longrightarrow>
        is_Scalar (prob su) \<and> 0 \<le> scalar (prob su))"
  then show "prob_detection 0 seg tag_seq start_pos bool_return_first = Inr []"
    by (simp add: prob_detection_def prob_loop_zero)
next
  assume "seg tag_seq = Inr ([ua, ub, uc], [0, 1, 2]) \<and> tag_seq \<noteq> [] \<and>
    prob ua = Scalar 0.9 \<and> prob ub = Scalar 0.4 \<and> prob uc = Scalar 0.6"
  then show "prob_detection 0.5 seg tag_seq 0 bool_return_first = Inr [(ub, 1)]"
    by (simp add: prob_detection_def prob_lt_def Let_def)
qed

theorem probability_threshold_witness:
  "segment_each
     [mk_unit ''SELECT_COL'' (Scalar 0.9), mk_unit ''WHERE_COL'' (Scalar 0.4),
      mk_unit ''WHERE_OP'' (Scalar 0.6)] =
     Inr ([mk_unit ''SELECT_COL'' (Scalar 0.9), mk_unit ''WHERE_COL'' (Scalar 0.4),
           mk_unit ''WHERE_OP'' (Scalar 0.6)], [0, 1, 2]) \<and>
   prob_detection 0.5 segment_each
     [mk_unit ''SELECT_COL'' (Scalar 0.9), mk_unit ''WHERE_COL'' (Scalar 0.4),
      mk_unit ''WHERE_OP'' (Scalar 0.6)] 0 False =
     Inr [(mk_unit ''WHERE_COL'' (Scalar 0.4), 1)] \<and>
   prob_detection 0 segment_each
     [mk_unit ''SELECT_COL'' (Scalar 0.9), mk_unit ''WHERE_COL'' (Scalar 0.4),
      mk_unit ''WHERE_OP'' (Scalar 0.6)] 0 False = Inr []"
  using probability_threshold [where seg = segment_each and start_pos = 0
      and prob_threshold = "0.5" and bool_return_first = False and ps = "[0, 1, 2]"
      and tag_seq = "[mk_unit ''SELECT_COL'' (Scalar 0.9), mk_unit ''WHERE_COL'' (Scalar 0.4),
                      mk_unit ''WHERE_OP'' (Scalar 0.6)]"
      and us = "[mk_unit ''SELECT_COL'' (Scalar 0.9), mk_unit ''WHERE_COL'' (Scalar 0.4),
                 mk_unit ''WHERE_OP'' (Scalar 0.6)]"
      and ua = "mk_unit ''SELECT_COL'' (Scalar 0.9)"
      and ub = "mk_unit ''WHERE_COL'' (Scalar 0.4)"
      and uc = "mk_unit ''WHERE_OP'' (Scalar 0.6)"]
  by (simp add: segment_each_def mk_unit_def)

subsection \<open>The standard deviation threshold\<close>



subsection \<open>The simulated detector\<close>

text \<open>
  C5. For the simulated detector called with a boolean list \<open>eval_tf\<close> that every
  examined pointer indexes: run to the end, detection returns exactly the units with
  pointer not below \<open>start_pos\<close> for which \<open>eval_tf[pointer]\<close> is false, in
  segmentation order, whatever their probability field; with \<open>bool_return_first\<close> the
  first of them alone. For \<open>eval_tf = [True, False, True]\<close> and any three units at
  pointers 0, 1, 2 exactly the middle unit is returned.
\<close>

theorem simulated_oracle:
  "(seg tag_seq = Inr (us, ps) \<and>
    (\<forall>(su, pointer) \<in> set (zip us ps). start_pos \<le> pointer \<longrightarrow>
        (\<exists>b. list_getitem eval_tf pointer = Inr b)) \<and>
    (start_pos < int (length tag_seq) \<or> (\<forall>pointer \<in> set ps. pointer < int (length tag_seq))) \<longrightarrow>
      sim_detection seg tag_seq start_pos False (Some eval_tf) =
        Inr (filter (\<lambda>(su, pointer). start_pos \<le> pointer \<and>
               list_getitem eval_tf pointer = Inr False) (zip us ps)) \<and>
      sim_detection seg tag_seq start_pos True (Some eval_tf) =
        Inr (take 1 (filter (\<lambda>(su, pointer). start_pos \<le> pointer \<and>
               list_getitem eval_tf pointer = Inr False) (zip us ps)))) \<and>
   (seg tag_seq = Inr ([ua, ub, uc], [0, 1, 2]) \<and> tag_seq \<noteq> [] \<longrightarrow>
      sim_detection seg tag_seq 0 bool_return_first (Some [True, False, True]) =
        Inr [(ub, 1)])"
proof (intro conjI impI)
  let ?d = "ErrorDetectorSim"
  let ?F = "filter (\<lambda>(su, pointer). start_pos \<le> pointer \<and>
               list_getitem eval_tf pointer = Inr False) (zip us ps)"
  assume h: "seg tag_seq = Inr (us, ps) \<and>
    (\<forall>(su, pointer) \<in> set (zip us ps). start_pos \<le> pointer \<longrightarrow>
        (\<exists>b. list_getitem eval_tf pointer = Inr b)) \<and>
    (start_pos < int (length tag_seq) \<or> (\<forall>pointer \<in> set ps. pointer < int (length tag_seq)))"
  then have ok: "\<forall>(su, p) \<in> set (zip us ps). start_pos \<le> p \<longrightarrow>
      (\<exists>b. flags ?d (Some eval_tf) su p = Inr b)"
    by (auto simp: eval_tf_getitem_def)
  have F: "flagged (flags ?d (Some eval_tf)) start_pos (zip us ps) = ?F"
    by (rule flagged_cong) (simp only: flags_sim)
  from h detection_full [of ?d seg tag_seq us ps start_pos "Some eval_tf", OF _ _ ok]
  show "sim_detection seg tag_seq start_pos False (Some eval_tf) = Inr ?F"
    and "sim_detection seg tag_seq start_pos True (Some eval_tf) = Inr (take 1 ?F)"
    by (simp_all add: concrete_def F)
next
  assume "seg tag_seq = Inr ([ua, ub, uc], [0, 1, 2]) \<and> tag_seq \<noteq> []"
  then show "sim_detection seg tag_seq 0 bool_return_first (Some [True, False, True]) =
        Inr [(ub, 1)]"
    by (simp add: sim_detection_def eval_tf_getitem_def list_getitem_def Let_def)
qed

theorem simulated_oracle_witness:
  "segment_each
     [mk_unit ''SELECT_COL'' (Scalar 0.2), mk_unit ''WHERE_COL'' (Scalar 0.99),
      mk_unit ''WHERE_OP'' (Scalar 0.1)] =
     Inr ([mk_unit ''SELECT_COL'' (Scalar 0.2), mk_unit ''WHERE_COL'' (Scalar 0.99),
           mk_unit ''WHERE_OP'' (Scalar 0.1)], [0, 1, 2]) \<and>
   list_getitem [True, False, True] 0 = Inr True \<and>
   list_getitem [True, False, True] 1 = Inr False \<and>
   list_getitem [True, False, True] 2 = Inr True \<and>
   sim_detection segment_each
     [mk_unit ''SELECT_COL'' (Scalar 0.2), mk_unit ''WHERE_COL'' (Scalar 0.99),
      mk_unit ''WHERE_OP'' (Scalar 0.1)] 0 False (Some [True, False, True]) =
     Inr [(mk_unit ''WHERE_COL'' (Scalar 0.99), 1)]"
proof -
  let ?a = "mk_unit ''SELECT_COL'' (Scalar 0.2)"
  let ?b = "mk_unit ''WHERE_COL'' (Scalar 0.99)"
  let ?c = "mk_unit ''WHERE_OP'' (Scalar 0.1)"
  note T = simulated_oracle [where seg = segment_each and tag_seq = "[?a, ?b, ?c]"
      and us = "[?a, ?b, ?c]" and ps = "[0, 1, 2]" and start_pos = 0
      and eval_tf = "[True, False, True]" and bool_return_first = False
      and ua = ?a and ub = ?b and uc = ?c]
  have seg: "segment_each [?a, ?b, ?c] = Inr ([?a, ?b, ?c], [0, 1, 2])"
    by (simp add: segment_each_def)
  have tf: "list_getitem [True, False, True] 0 = Inr True"
    "list_getitem [True, False, True] 1 = Inr False"
    "list_getitem [True, False, True] 2 = Inr True"
    by (simp_all add: list_getitem_def)
  from T seg tf show ?thesis by simp
qed

subsection \<open>The feature vector of the learned detector\<close>

text \<open>
  C4, as stated, fails where the recorded probability is 0: for a known tag the vector
  then has the one-hot slot as its only nonzero slot.
\<close>

theorem fnn_zero_probability_counterexample:
  "fnn_input (fnn_init example_indexer last) (mk_unit ''SELECT_COL'' (Scalar 0)) = Inr [1, 0, 0] \<and>
   indexer (fnn_init example_indexer last) ''SELECT_COL'' = Some 0 \<and>
   prob (mk_unit ''SELECT_COL'' (Scalar 0)) = Scalar 0"
  by (simp add: fnn_input_def fnn_init_def dict_getitem_def row_setitem_conf_def
      row_setitem_def Let_def card_example_indexer mk_unit_def example_indexer_def)

text \<open>
  C4, amended. For a detector built by the constructor, a unit of scalar probability
  \<open>q\<close> and a tag whose index is a one-hot column (\<open>0 \<le> indexer[tag_name] < len(indexer)\<close>):
  the feature vector has width \<open>len(indexer) + 1\<close>, holds 1 at \<open>indexer[tag_name]\<close>,
  \<open>q\<close> in its last slot and 0 everywhere else; so its nonzero slots are the one-hot
  slot, and the last slot exactly when \<open>q \<noteq> 0\<close>. Run to the end, detection returns
  exactly the units with pointer not below \<open>start_pos\<close> on whose vector the classifier's
  output is strictly below 0.5 (the first of them alone with \<open>bool_return_first\<close>); a
  returned unit never has output exactly 0.5.
\<close>

theorem fnn_feature_vector:
  "(idx (tag_name su) = Some col_idx \<and> prob su = Scalar q \<and>
    0 \<le> col_idx \<and> col_idx < int (card (dom idx)) \<longrightarrow>
      (\<exists>x. fnn_input (fnn_init idx mdl) su = Inr x \<and>
           length x = card (dom idx) + 1 \<and>
           x ! nat col_idx = 1 \<and> last x = q \<and>
           (\<forall>i < length x. i \<noteq> nat col_idx \<and> i \<noteq> card (dom idx) \<longrightarrow> x ! i = 0) \<and>
           {i. i < length x \<and> x ! i \<noteq> 0} =
             (if q = 0 then {nat col_idx} else {nat col_idx, card (dom idx)}))) \<and>
   (seg tag_seq = Inr (us, ps) \<and>
    (\<forall>(su, pointer) \<in> set (zip us ps). start_pos \<le> pointer \<longrightarrow>
        (\<exists>x. fnn_input self su = Inr x)) \<and>
    (start_pos < int (length tag_seq) \<or> (\<forall>pointer \<in> set ps. pointer < int (length tag_seq))) \<longrightarrow>
      fnn_detection self seg tag_seq start_pos False =
        Inr (filter (\<lambda>(su, pointer). start_pos \<le> pointer \<and>
               (\<exists>x. fnn_input self su = Inr x \<and> model self x < 0.5)) (zip us ps)) \<and>
      fnn_detection self seg tag_seq start_pos True =
        Inr (take 1 (filter (\<lambda>(su, pointer). start_pos \<le> pointer \<and>
               (\<exists>x. fnn_input self su = Inr x \<and> model self x < 0.5)) (zip us ps)))) \<and>
   (fnn_detection self seg tag_seq start_pos bool_return_first = Inr res \<and>
    (unit, pointer) \<in> set res \<and> fnn_input self unit = Inr y \<longrightarrow> model self y \<noteq> 0.5)"
proof (intro conjI impI)
  assume h: "idx (tag_name su) = Some col_idx \<and> prob su = Scalar q \<and>
    0 \<le> col_idx \<and> col_idx < int (card (dom idx))"
  let ?n = "card (dom idx)"
  let ?x = "(replicate (?n + 1) (0::real))[?n := q, nat col_idx := 1]"
  from h have c: "nat col_idx < ?n" by auto
  from h have x: "fnn_input (fnn_init idx mdl) su = Inr ?x" by (simp add: fnn_input_init)
  have len: "length ?x = ?n + 1" by (simp del: replicate_Suc)
  from c have one: "?x ! nat col_idx = 1" by (simp del: replicate_Suc)
  from c have lst: "last ?x = q"
    by (simp add: last_conv_nth nth_list_update del: replicate_Suc)
  from c have zero: "\<forall>i < length ?x. i \<noteq> nat col_idx \<and> i \<noteq> ?n \<longrightarrow> ?x ! i = 0"
    by (simp add: nth_list_update del: replicate_Suc)
  from nonzero_slots [OF c, of q]
  have nz: "{i. i < length ?x \<and> ?x ! i \<noteq> 0} = (if q = 0 then {nat col_idx} else {nat col_idx, ?n})"
    by (simp del: replicate_Suc)
  from x len one lst zero nz
  show "\<exists>x. fnn_input (fnn_init idx mdl) su = Inr x \<and>
           length x = card (dom idx) + 1 \<and>
           x ! nat col_idx = 1 \<and> last x = q \<and>
           (\<forall>i < length x. i \<noteq> nat col_idx \<and> i \<noteq> card (dom idx) \<longrightarrow> x ! i = 0) \<and>
           {i. i < length x \<and> x ! i \<noteq> 0} =
             (if q = 0 then {nat col_idx} else {nat col_idx, card (dom idx)})"
    by blast
next
  let ?d = "ErrorDetectorFNN self"
  let ?F = "filter (\<lambda>(su, pointer). start_pos \<le> pointer \<and>
               (\<exists>x. fnn_input self su = Inr x \<and> model self x < 0.5)) (zip us ps)"
  assume h: "seg tag_seq = Inr (us, ps) \<and>
    (\<forall>(su, pointer) \<in> set (zip us ps). start_pos \<le> pointer \<longrightarrow>
        (\<exists>x. fnn_input self su = Inr x)) \<and>
    (start_pos < int (length tag_seq) \<or> (\<forall>pointer \<in> set ps. pointer < int (length tag_seq)))"
  then have ok: "\<forall>(su, p) \<in> set (zip us ps). start_pos \<le> p \<longrightarrow>
      (\<exists>b. flags ?d None su p = Inr b)"
    by fastforce
  have F: "flagged (flags ?d None) start_pos (zip us ps) = ?F"
    by (rule flagged_cong) (simp only: flags_fnn)
  from h detection_full [of ?d seg tag_seq us ps start_pos None, OF _ _ ok]
  show "fnn_detection self seg tag_seq start_pos False = Inr ?F"
    and "fnn_detection self seg tag_seq start_pos True = Inr (take 1 ?F)"
    by (simp_all add: concrete_def F)
next
  let ?d = "ErrorDetectorFNN self"
  assume h: "fnn_detection self seg tag_seq start_pos bool_return_first = Inr res \<and>
    (unit, pointer) \<in> set res \<and> fnn_input self unit = Inr y"
  then have "detection ?d seg tag_seq start_pos bool_return_first None = Inr res"
    and "(unit, pointer) \<in> set res" by simp_all
  from detection_Inr_flags [OF this] have "flags ?d None unit pointer = Inr True" by simp
  with h show "model self y \<noteq> 0.5" by simp
qed

theorem fnn_feature_vector_witness:
  "example_indexer (tag_name (mk_unit ''WHERE_COL'' (Scalar 0.3))) = Some 1 \<and>
   fnn_input (fnn_init example_indexer last) (mk_unit ''WHERE_COL'' (Scalar 0.3)) =
     Inr [0, 1, 0.3] \<and>
   fnn_input (fnn_init example_indexer last) (mk_unit ''SELECT_COL'' (Scalar 0.5)) =
     Inr [1, 0, 0.5] \<and>
   fnn_detection (fnn_init example_indexer last) segment_each
     [mk_unit ''WHERE_COL'' (Scalar 0.3), mk_unit ''SELECT_COL'' (Scalar 0.5)] 0 False =
     Inr [(mk_unit ''WHERE_COL'' (Scalar 0.3), 0)] \<and>
   model (fnn_init example_indexer last) [0, 1, 0.3] \<noteq> 0.5"
proof -
  let ?a = "mk_unit ''WHERE_COL'' (Scalar 0.3)"
  let ?b = "mk_unit ''SELECT_COL'' (Scalar 0.5)"
  let ?self = "fnn_init example_indexer last"
  note T = fnn_feature_vector [where idx = example_indexer and mdl = last and su = ?a
      and col_idx = 1 and q = "0.3" and self = ?self and seg = segment_each
      and tag_seq = "[?a, ?b]" and us = "[?a, ?b]" and ps = "[0, 1]" and start_pos = 0
      and bool_return_first = False and res = "[(?a, 0)]" and unit = ?a and pointer = 0
      and y = "[0, 1, 0.3]"]
  have known: "example_indexer (tag_name ?a) = Some 1"
    by (simp add: example_indexer_def mk_unit_def)
  have a: "fnn_input ?self ?a = Inr [0, 1, 0.3]"
    by (simp add: fnn_input_def fnn_init_def dict_getitem_def row_setitem_conf_def
        row_setitem_def Let_def card_example_indexer mk_unit_def example_indexer_def)
  have b: "fnn_input ?self ?b = Inr [1, 0, 0.5]"
    by (simp add: fnn_input_def fnn_init_def dict_getitem_def row_setitem_conf_def
        row_setitem_def Let_def card_example_indexer mk_unit_def example_indexer_def)
  have seg: "segment_each [?a, ?b] = Inr ([?a, ?b], [0, 1])"
    by (simp add: segment_each_def)
  have mdl: "model ?self = last" by (simp add: fnn_init_def)
  from T seg a b have
    "fnn_detection ?self segment_each [?a, ?b] 0 False =
       Inr (filter (\<lambda>(su, pointer). 0 \<le> pointer \<and>
              (\<exists>x. fnn_input ?self su = Inr x \<and> model ?self x < 0.5)) (zip [?a, ?b] [0, 1]))"
    by simp
  with a b mdl have run: "fnn_detection ?self segment_each [?a, ?b] 0 False = Inr [(?a, 0)]"
    by simp
  with T a have "model ?self [0, 1, 0.3] \<noteq> 0.5" by simp
  with known a b run show ?thesis by simp
qed

subsection \<open>A tag name missing from the indexer\<close>

text \<open>
  C8. For the learned detector, a unit whose tag name is not a key of the indexer makes
  the construction of its input raise KeyError. When the loop reaches such a unit
  (\<open>start_pos < len(tag_seq)\<close>, its pointer is not below \<open>start_pos\<close>, every examined
  unit before it got its input built and, with \<open>bool_return_first\<close>, none of them was
  flagged), detection raises that KeyError, whatever was collected before. Run to the
  end, detection never returns a list when some unit with pointer not below \<open>start_pos\<close>
  has an unknown tag.
\<close>

theorem fnn_unknown_tag:
  "(indexer self (tag_name su) = None \<longrightarrow>
      fnn_input self su = Inl (KeyError (tag_name su))) \<and>
   (seg tag_seq = Inr (us, ps) \<and> start_pos < int (length tag_seq) \<and>
    zip us ps = before @ (su, pointer) # rest \<and>
    start_pos \<le> pointer \<and> indexer self (tag_name su) = None \<and>
    (\<forall>(su', pointer') \<in> set before. start_pos \<le> pointer' \<longrightarrow>
        (\<exists>x. fnn_input self su' = Inr x \<and>
             (bool_return_first \<longrightarrow> \<not> model self x < 0.5))) \<longrightarrow>
      fnn_detection self seg tag_seq start_pos bool_return_first =
        Inl (KeyError (tag_name su))) \<and>
   (seg tag_seq = Inr (us, ps) \<and> start_pos < int (length tag_seq) \<and>
    (su, pointer) \<in> set (zip us ps) \<and>
    start_pos \<le> pointer \<and> indexer self (tag_name su) = None \<longrightarrow>
      (\<exists>e. fnn_detection self seg tag_seq start_pos False = Inl e))"
proof (intro conjI impI)
  assume "indexer self (tag_name su) = None"
  then show "fnn_input self su = Inl (KeyError (tag_name su))" by (rule fnn_input_unknown)
next
  let ?d = "ErrorDetectorFNN self"
  assume h: "seg tag_seq = Inr (us, ps) \<and> start_pos < int (length tag_seq) \<and>
    zip us ps = before @ (su, pointer) # rest \<and>
    start_pos \<le> pointer \<and> indexer self (tag_name su) = None \<and>
    (\<forall>(su', pointer') \<in> set before. start_pos \<le> pointer' \<longrightarrow>
        (\<exists>x. fnn_input self su' = Inr x \<and>
             (bool_return_first \<longrightarrow> \<not> model self x < 0.5)))"
  then have seg: "seg tag_seq = Inr (us, ps)" and inside: "start_pos < int (length tag_seq)"
    and split: "zip us ps = before @ (su, pointer) # rest"
    and ge: "start_pos \<le> pointer" and unknown: "indexer self (tag_name su) = None"
    and early: "\<forall>(su', pointer') \<in> set before. start_pos \<le> pointer' \<longrightarrow>
        (\<exists>x. fnn_input self su' = Inr x \<and>
             (bool_return_first \<longrightarrow> \<not> model self x < 0.5))"
    by blast+
  have pre: "\<forall>(su', p') \<in> set before. start_pos \<le> p' \<longrightarrow>
      (\<exists>f. flags ?d None su' p' = Inr f \<and> (bool_return_first \<longrightarrow> \<not> f))"
  proof (intro ballI, clarify)
    fix su' p'
    assume "(su', p') \<in> set before" "start_pos \<le> p'"
    with early obtain x where "fnn_input self su' = Inr x"
      "bool_return_first \<longrightarrow> \<not> model self x < 0.5" by blast
    then show "\<exists>f. flags ?d None su' p' = Inr f \<and> (bool_return_first \<longrightarrow> \<not> f)" by simp
  qed
  from unknown have "flags ?d None su pointer = Inl (KeyError (tag_name su))"
    by (simp add: fnn_input_unknown)
  from detect_loop_raise [OF pre ge this]
  have "detect_loop (flags ?d None) (zip us ps) start_pos bool_return_first [] =
       Inl (KeyError (tag_name su))"
    by (simp only: split)
  with seg inside show "fnn_detection self seg tag_seq start_pos bool_return_first =
      Inl (KeyError (tag_name su))"
    by (simp add: fnn_detection_def fnn_loop_eq [where ev = None])
next
  let ?d = "ErrorDetectorFNN self"
  assume h: "seg tag_seq = Inr (us, ps) \<and> start_pos < int (length tag_seq) \<and>
    (su, pointer) \<in> set (zip us ps) \<and>
    start_pos \<le> pointer \<and> indexer self (tag_name su) = None"
  then have seg: "seg tag_seq = Inr (us, ps)" and inside: "start_pos < int (length tag_seq)"
    and mem: "(su, pointer) \<in> set (zip us ps)"
    and ge: "start_pos \<le> pointer" and unknown: "indexer self (tag_name su) = None"
    by blast+
  show "\<exists>e. fnn_detection self seg tag_seq start_pos False = Inl e"
  proof (cases "fnn_detection self seg tag_seq start_pos False")
    case (Inl e)
    then show ?thesis by blast
  next
    case (Inr r)
    with seg inside have "detect_loop (flags ?d None) (zip us ps) start_pos False [] = Inr r"
      by (simp add: fnn_detection_def fnn_loop_eq [where ev = None])
    from detect_loop_full_examined [OF this mem ge]
    have "\<exists>b. flags ?d None su pointer = Inr b" .
    with unknown show ?thesis by (simp add: fnn_input_unknown)
  qed
qed

theorem fnn_unknown_tag_witness:
  "segment_each [mk_unit ''WHERE_COL'' (Scalar 0.3), mk_unit ''ORDER_BY'' (Scalar 0.9)] =
     Inr ([mk_unit ''WHERE_COL'' (Scalar 0.3), mk_unit ''ORDER_BY'' (Scalar 0.9)], [0, 1]) \<and>
   indexer (fnn_init example_indexer last) (tag_name (mk_unit ''ORDER_BY'' (Scalar 0.9))) = None \<and>
   fnn_input (fnn_init example_indexer last) (mk_unit ''WHERE_COL'' (Scalar 0.3)) =
     Inr [0, 1, 0.3] \<and>
   fnn_input (fnn_init example_indexer last) (mk_unit ''ORDER_BY'' (Scalar 0.9)) =
     Inl (KeyError ''ORDER_BY'') \<and>
   fnn_detection (fnn_init example_indexer last) segment_each
     [mk_unit ''WHERE_COL'' (Scalar 0.3), mk_unit ''ORDER_BY'' (Scalar 0.9)] 0 False =
     Inl (KeyError ''ORDER_BY'')"
proof -
  let ?a = "mk_unit ''WHERE_COL'' (Scalar 0.3)"
  let ?b = "mk_unit ''ORDER_BY'' (Scalar 0.9)"
  let ?self = "fnn_init example_indexer last"
  note T = fnn_unknown_tag [where self = ?self and su = ?b and seg = segment_each
      and tag_seq = "[?a, ?b]" and us = "[?a, ?b]" and ps = "[0, 1]" and start_pos = 0
      and before = "[(?a, 0)]" and pointer = 1 and rest = "[]" and bool_return_first = False]
  have seg: "segment_each [?a, ?b] = Inr ([?a, ?b], [0, 1])"
    by (simp add: segment_each_def)
  have unknown: "indexer ?self (tag_name ?b) = None"
    by (simp add: fnn_init_def example_indexer_def mk_unit_def)
  have a: "fnn_input ?self ?a = Inr [0, 1, 0.3]"
    by (simp add: fnn_input_def fnn_init_def dict_getitem_def row_setitem_conf_def
        row_setitem_def Let_def card_example_indexer mk_unit_def example_indexer_def)
  have tag: "tag_name ?b = ''ORDER_BY''" by (simp add: mk_unit_def)
  have inside: "(0::int) < int (length [?a, ?b])" by simp
  have ge: "(0::int) \<le> 1" by simp
  have split: "zip [?a, ?b] [0, 1 :: int] = [(?a, 0)] @ (?b, 1) # []" by simp
  have early: "\<forall>(su', pointer') \<in> set [(?a, 0 :: int)]. 0 \<le> pointer' \<longrightarrow>
      (\<exists>x. fnn_input ?self su' = Inr x \<and> (False \<longrightarrow> \<not> model ?self x < 0.5))"
    using a by simp
  from T unknown have b: "fnn_input ?self ?b = Inl (KeyError (tag_name ?b))" by blast
  have run: "fnn_detection ?self segment_each [?a, ?b] 0 False = Inl (KeyError (tag_name ?b))"
    by (rule T [THEN conjunct2, THEN conjunct1, THEN mp])
       (intro conjI seg inside split ge unknown early)
  from seg unknown a b run show ?thesis by (simp only: tag simp_thms)
qed

subsection \<open>Two calls in a row\<close>

text \<open>
  C9. For every detector variant, with the segmenter and the classifier fixed: a call of
  detection leaves the input sequence, the ground truth and the detector's attributes as
  they were; its result is the value of \<open>detection\<close> on them; and a second call with the
  same arguments, made on the objects as the first call left them, returns the same
  result.
\<close>

theorem detection_idempotent:
  "fst (detection_st seg start_pos bool_return_first
          (snd (detection_st seg start_pos bool_return_first s))) =
     fst (detection_st seg start_pos bool_return_first s) \<and>
   fst (detection_st seg start_pos bool_return_first s) =
     detection (self_obj s) seg (tag_seq_obj s) start_pos bool_return_first (eval_tf_obj s) \<and>
   tag_seq_obj (snd (detection_st seg start_pos bool_return_first s)) = tag_seq_obj s \<and>
   eval_tf_obj (snd (detection_st seg start_pos bool_return_first s)) = eval_tf_obj s \<and>
   self_obj (snd (detection_st seg start_pos bool_return_first s)) = self_obj s"
  by (simp add: detection_st_result detection_st_frame)

theorem detection_idempotent_witness:
  "fst (detection_st segment_each 0 False
     \<lparr>tag_seq_obj = [mk_unit ''SELECT_COL'' (Scalar 0.9), mk_unit ''WHERE_COL'' (Scalar 0.4)],
      eval_tf_obj = None, self_obj = ErrorDetectorProbability 0.5,
      err_su_pointer_pairs_obj = []\<rparr>) =
     Inr [(mk_unit ''WHERE_COL'' (Scalar 0.4), 1)] \<and>
   snd (detection_st segment_each 0 False
     \<lparr>tag_seq_obj = [mk_unit ''SELECT_COL'' (Scalar 0.9), mk_unit ''WHERE_COL'' (Scalar 0.4)],
      eval_tf_obj = None, self_obj = ErrorDetectorProbability 0.5,
      err_su_pointer_pairs_obj = []\<rparr>) =
     \<lparr>tag_seq_obj = [mk_unit ''SELECT_COL'' (Scalar 0.9), mk_unit ''WHERE_COL'' (Scalar 0.4)],
      eval_tf_obj = None, self_obj = ErrorDetectorProbability 0.5,
      err_su_pointer_pairs_obj = [(mk_unit ''WHERE_COL'' (Scalar 0.4), 1)]\<rparr> \<and>
   fst (detection_st segment_each 0 False
     \<lparr>tag_seq_obj = [mk_unit ''SELECT_COL'' (Scalar 0.9), mk_unit ''WHERE_COL'' (Scalar 0.4)],
      eval_tf_obj = None, self_obj = ErrorDetectorProbability 0.5,
      err_su_pointer_pairs_obj = [(mk_unit ''WHERE_COL'' (Scalar 0.4), 1)]\<rparr>) =
     Inr [(mk_unit ''WHERE_COL'' (Scalar 0.4), 1)]"
proof -
  let ?ts = "[mk_unit ''SELECT_COL'' (Scalar 0.9), mk_unit ''WHERE_COL'' (Scalar 0.4)]"
  let ?s = "\<lparr>tag_seq_obj = ?ts, eval_tf_obj = None, self_obj = ErrorDetectorProbability 0.5,
             err_su_pointer_pairs_obj = []\<rparr>"
  have first: "detection_st segment_each 0 False ?s =
      (Inr [(mk_unit ''WHERE_COL'' (Scalar 0.4), 1)],
       ?s\<lparr>err_su_pointer_pairs_obj := [(mk_unit ''WHERE_COL'' (Scalar 0.4), 1)]\<rparr>)"
    by (simp add: detection_st_def segment_each_def prob_lt_def mk_unit_def)
  from detection_idempotent [of segment_each 0 False ?s] first show ?thesis by simp
qed

end
